theory Spec2Isabelle
  imports Main
begin

section \<open>The validation system chaincode (core/scc/vscc/validator_onevalidsignature.go)\<close>

text \<open>
  A shallow embedding of \<^verbatim>\<open>ValidatorOneValidSignature.Invoke\<close> and
  \<^verbatim>\<open>ValidateLSCCInvocation\<close>. The decoders of package \<^verbatim>\<open>utils\<close>, the protobuf
  unmarshaller and the policy provider are not part of the file: they are parameters of the
  model (the record \<open>collaborators\<close>), each returning either an error message or the
  decoded message. Logging has no effect on the result and is left out.
\<close>

subsection \<open>Bytes, slices and the decoded messages\<close>

text \<open>
  A Go \<^verbatim>\<open>byte\<close> is an 8-bit value, as a HOL \<open>char\<close> is; the conversion
  \<^verbatim>\<open>string(b)\<close> keeps the bytes as they are, so a Go string and the contents of a byte
  slice are both a \<open>char list\<close>.
\<close>

type_synonym byte = char
type_synonym bytes = "byte list"

text \<open>
  A byte slice that the code appends to is modelled with its capacity: \<open>elems\<close> are the
  bytes of the slice, \<open>spare\<close> the rest of its backing array, from the end of the slice up to
  the capacity. \<open>arr\<close> is the backing array from the first element of the slice on.
\<close>

record slice =
  elems :: bytes
  spare :: bytes

definition arr :: "slice \<Rightarrow> bytes" where
  "arr s = elems s @ spare s"

definition len :: "slice \<Rightarrow> nat" where
  "len s = length (elems s)"

definition cap :: "slice \<Rightarrow> nat" where
  "cap s = length (arr s)"

text \<open>A slice whose capacity equals its length, as \<^verbatim>\<open>make([]byte, n)\<close> followed by a copy gives.\<close>

definition exact :: "bytes \<Rightarrow> slice" where
  "exact bs = \<lparr>elems = bs, spare = []\<rparr>"

text \<open>
  The message types are declared in the protobuf packages \<^verbatim>\<open>protos/common\<close> and
  \<^verbatim>\<open>protos/peer\<close>; the records below have the fields the code reads. A field that is a
  pointer to a message is an \<open>option\<close> (\<open>None\<close> is \<^verbatim>\<open>nil\<close>); a byte field that
  is only read is its contents.
\<close>

record Endorsement =
  Endorser :: bytes
  Signature :: bytes

record ChaincodeEndorsedAction =
  ProposalResponsePayload :: slice
  Endorsements :: "Endorsement list"

record ChaincodeActionPayload =
  ChaincodeProposalPayload :: bytes
  Action :: "ChaincodeEndorsedAction option"

text \<open>
  \<^verbatim>\<open>common.SignedData\<close>. While the signature set is being built, \<open>Data\<close> is a reference
  (\<open>data_ref\<close>); what the policy evaluator reads is the record with \<open>Data\<close> loaded.
\<close>

record 'd SignedData =
  Data :: 'd
  Identity :: bytes
  Signature :: bytes

text \<open>
  The result slice of \<^verbatim>\<open>append(prespBytes, ...)\<close>: either the first \<open>n\<close> bytes of the
  backing array of \<^verbatim>\<open>prespBytes\<close> (the append wrote in place), or a newly allocated
  array that nothing else refers to.
\<close>

datatype data_ref = Shared nat | Own bytes

subsection \<open>Building the signature set (lines 126 to 140)\<close>

text \<open>
  \<^verbatim>\<open>append(s, xs...)\<close> for a slice \<open>s\<close> of length \<open>n\<close> over the backing array \<open>a\<close>.
  When \<open>n + length xs\<close> does not exceed the capacity, Go writes \<open>xs\<close> into the array at
  positions \<open>n\<close>, \<open>n + 1\<close>, ... and returns a slice of the same array; otherwise it
  allocates a new array and copies the \<open>n\<close> bytes of \<open>s\<close> and then \<open>xs\<close> into it. The result
  is the backing array after the call and the returned slice.
\<close>

definition go_append :: "bytes \<Rightarrow> nat \<Rightarrow> bytes \<Rightarrow> bytes \<times> data_ref" where
  "go_append a n xs =
     (if n + length xs \<le> length a
      then (take n a @ xs @ drop (n + length xs) a, Shared (n + length xs))
      else (a, Own (take n a @ xs)))"

text \<open>
  The loop \<^verbatim>\<open>for i, endorsement := range cap.Action.Endorsements\<close>: \<open>i\<close> is the index,
  \<open>a\<close> the backing array of \<^verbatim>\<open>prespBytes\<close>, \<open>n\<close> its length, \<open>ss\<close> the slice
  \<^verbatim>\<open>signatureSet\<close> of pointers (\<open>None\<close> is \<^verbatim>\<open>nil\<close>).
\<close>

fun fill_signatureSet ::
  "nat \<Rightarrow> Endorsement list \<Rightarrow> bytes \<Rightarrow> nat \<Rightarrow> data_ref SignedData option list
     \<Rightarrow> bytes \<times> data_ref SignedData option list" where
  "fill_signatureSet i [] a n ss = (a, ss)"
| "fill_signatureSet i (endorsement # rest) a n ss =
     (case go_append a n (Endorser endorsement) of
        (a', d) \<Rightarrow>
          fill_signatureSet (Suc i) rest a' n
            (ss[i := Some \<lparr>Data = d, Identity = Endorser endorsement,
                            Signature = Endorsement.Signature endorsement\<rparr>]))"

text \<open>Reading a reference once the loop is over, against the final backing array.\<close>

fun load :: "bytes \<Rightarrow> data_ref \<Rightarrow> bytes" where
  "load a (Shared m) = take m a"
| "load a (Own bs) = bs"

definition load_entry :: "bytes \<Rightarrow> data_ref SignedData option \<Rightarrow> bytes SignedData option" where
  "load_entry a e =
     (case e of
        None \<Rightarrow> None
      | Some sd \<Rightarrow> Some \<lparr>Data = load a (Data sd), Identity = Identity sd,
                          Signature = SignedData.Signature sd\<rparr>)"

text \<open>
  Lines 126 to 140: \<^verbatim>\<open>signatureSet := make([]*common.SignedData, len(endorsements))\<close>,
  the loop, and the signature set as \<^verbatim>\<open>policy.Evaluate\<close> reads it afterwards.
\<close>

definition build_signatureSet :: "ChaincodeEndorsedAction \<Rightarrow> bytes SignedData option list" where
  "build_signatureSet ea =
     (let prespBytes = ProposalResponsePayload ea;
          signatureSet = replicate (length (Endorsements ea)) None
      in case fill_signatureSet 0 (Endorsements ea) (arr prespBytes) (len prespBytes) signatureSet of
           (a, ss) \<Rightarrow> map (load_entry a) ss)"

subsection \<open>The remaining messages and the collaborators\<close>

record Envelope =
  Payload :: bytes
  Signature :: bytes

record Header =
  ChannelHeader :: bytes
  SignatureHeader :: bytes

record Payload =
  Header :: "Header option"
  Data :: bytes

record ChannelHeader =
  Type :: int
  ChannelId :: string

record TransactionAction =
  Header :: bytes
  Payload :: bytes

record Transaction =
  Actions :: "TransactionAction list"

record ChaincodeID =
  Name :: string

record ChaincodeHeaderExtension =
  ChaincodeId :: "ChaincodeID option"

record ChaincodeProposalPayload =
  Input :: bytes

record ChaincodeInput =
  Args :: "bytes list option"

record ChaincodeSpec =
  Input :: "ChaincodeInput option"

record ChaincodeInvocationSpec =
  ChaincodeSpec :: "ChaincodeSpec option"

text \<open>
  A compiled policy is its \<^verbatim>\<open>Evaluate\<close> method: \<open>None\<close> is the \<^verbatim>\<open>nil\<close> error, \<open>Some m\<close>
  an error with message \<open>m\<close>.
\<close>

type_synonym policy = "bytes SignedData option list \<Rightarrow> string option"

text \<open>
  The functions the code calls and that live outside the file. \<open>Inl m\<close> is a non-nil error
  with message \<open>m\<close>. \<open>NewPolicy\<close> stands for the three lines
  \<^verbatim>\<open>mspmgmt.GetManagerForChain(chdr.ChannelId)\<close>, \<^verbatim>\<open>cauthdsl.NewPolicyProvider(mgr)\<close>
  and \<^verbatim>\<open>pProvider.NewPolicy(args[2])\<close>; \<open>UnmarshalInvocationSpec\<close> for
  \<^verbatim>\<open>proto.Unmarshal(cpp.Input, cis)\<close> into a fresh \<^verbatim>\<open>ChaincodeInvocationSpec\<close>.
\<close>

record collaborators =
  GetEnvelopeFromBlock :: "bytes \<Rightarrow> string + Envelope"
  GetPayload :: "Envelope \<Rightarrow> string + Payload"
  UnmarshalChannelHeader :: "bytes \<Rightarrow> string + ChannelHeader"
  NewPolicy :: "string \<Rightarrow> bytes \<Rightarrow> string + policy"
  GetTransaction :: "bytes \<Rightarrow> string + Transaction"
  GetChaincodeActionPayload :: "bytes \<Rightarrow> string + ChaincodeActionPayload"
  GetChaincodeHeaderExtension :: "Header \<Rightarrow> string + ChaincodeHeaderExtension"
  GetChaincodeProposalPayload :: "bytes \<Rightarrow> string + ChaincodeProposalPayload"
  UnmarshalInvocationSpec :: "bytes \<Rightarrow> string + ChaincodeInvocationSpec"

text \<open>
  Modelled from the spec: the constants \<^verbatim>\<open>lscc.DEPLOY\<close> and \<^verbatim>\<open>lscc.UPGRADE\<close> of package
  \<^verbatim>\<open>core/scc/lscc\<close> are not in the file; the spec gives the allow-list as "deploy" and
  "upgrade".
\<close>

definition DEPLOY :: string where
  "DEPLOY = ''deploy''"

definition UPGRADE :: string where
  "UPGRADE = ''upgrade''"

text \<open>
  Modelled from the spec: the enum value \<^verbatim>\<open>common.HeaderType_ENDORSER_TRANSACTION\<close> of
  \<^verbatim>\<open>protos/common\<close> is not in the file; the spec names it as the one accepted header
  type. Its number (3 in the protobuf declaration) plays no part in any proof.
\<close>

definition HeaderType_ENDORSER_TRANSACTION :: int where
  "HeaderType_ENDORSER_TRANSACTION = 3"

subsection \<open>Results\<close>

text \<open>
  One constructor for each \<^verbatim>\<open>shim.Error\<close> and \<^verbatim>\<open>fmt.Errorf\<close> of the file, carrying what
  the message is formatted from.
\<close>

datatype error =
    IncorrectNumberOfArguments
  | NoBlockToValidate
  | NoPolicySupplied
  | GetEnvelopeFailed string
  | GetPayloadFailed string
  | UnmarshalChannelHeaderFailed string
  | NewPolicyFailed string
  | OnlyEndorserTransactionsSupported int
  | GetTransactionFailed string
  | GetChaincodeActionPayloadFailed string
  | PolicyEvaluationFailed string
  | GetChaincodeHeaderExtensionFailed string
  | GetChaincodeProposalPayloadFailed string
  | UnmarshalInvocationSpecFailed string
  | InvalidVsccInvocation
  | InvalidLsccFunction string

text \<open>The run-time panics of Go that the code can reach.\<close>

datatype panic = NilPointerDereference | IndexOutOfRange

text \<open>
  \<open>Success\<close> is \<^verbatim>\<open>shim.Success(nil)\<close> (for \<^verbatim>\<open>ValidateLSCCInvocation\<close>, the \<^verbatim>\<open>nil\<close>
  error), \<open>Error e\<close> is \<^verbatim>\<open>shim.Error\<close> (a returned error), \<open>Panic p\<close> is a run-time
  panic: the function does not return.
\<close>

datatype result = Success | Error error | Panic panic

text \<open>The error kinds of the spec's taxonomy, by the trigger the spec gives for each.\<close>

datatype error_kind =
    ArgumentError | DecodeError | UnsupportedTypeError | PolicyEvaluationError
  | LifecycleInvocationError

fun kind_of :: "error \<Rightarrow> error_kind" where
  "kind_of IncorrectNumberOfArguments = ArgumentError"
| "kind_of NoBlockToValidate = ArgumentError"
| "kind_of NoPolicySupplied = ArgumentError"
| "kind_of (GetEnvelopeFailed m) = DecodeError"
| "kind_of (GetPayloadFailed m) = DecodeError"
| "kind_of (UnmarshalChannelHeaderFailed m) = DecodeError"
| "kind_of (NewPolicyFailed m) = DecodeError"
| "kind_of (OnlyEndorserTransactionsSupported t) = UnsupportedTypeError"
| "kind_of (GetTransactionFailed m) = DecodeError"
| "kind_of (GetChaincodeActionPayloadFailed m) = DecodeError"
| "kind_of (PolicyEvaluationFailed m) = PolicyEvaluationError"
| "kind_of (GetChaincodeHeaderExtensionFailed m) = DecodeError"
| "kind_of (GetChaincodeProposalPayloadFailed m) = DecodeError"
| "kind_of (UnmarshalInvocationSpecFailed m) = DecodeError"
| "kind_of InvalidVsccInvocation = LifecycleInvocationError"
| "kind_of (InvalidLsccFunction f) = LifecycleInvocationError"

text \<open>
  The calls a run makes inside the loop over the actions, in order: each
  \<^verbatim>\<open>policy.Evaluate(signatureSet)\<close> and each \<^verbatim>\<open>vscc.ValidateLSCCInvocation(cap)\<close>.
\<close>

datatype event =
    Evaluate "bytes SignedData option list"
  | ValidateLSCC ChaincodeActionPayload

subsection \<open>ValidateLSCCInvocation (lines 169 to 209)\<close>

text \<open>
  \<^verbatim>\<open>cis\<close> is the address of a fresh struct, so \<^verbatim>\<open>cis == nil\<close> is never true. In Go a
  \<^verbatim>\<open>case\<close> does not fall through: \<^verbatim>\<open>case lscc.DEPLOY:\<close> has an empty body and leaves
  the switch, reaching the final \<^verbatim>\<open>return nil\<close>. \<^verbatim>\<open>Args[0]\<close> on an empty, non-nil
  slice panics.
\<close>

definition ValidateLSCCInvocation :: "collaborators \<Rightarrow> ChaincodeActionPayload \<Rightarrow> result" where
  "ValidateLSCCInvocation c cap' =
     (case GetChaincodeProposalPayload c (ChaincodeProposalPayload cap') of
        Inl m \<Rightarrow> Error (GetChaincodeProposalPayloadFailed m)
      | Inr cpp \<Rightarrow>
     (case UnmarshalInvocationSpec c (ChaincodeProposalPayload.Input cpp) of
        Inl m \<Rightarrow> Error (UnmarshalInvocationSpecFailed m)
      | Inr cis \<Rightarrow>
     (case ChaincodeSpec cis of
        None \<Rightarrow> Error InvalidVsccInvocation
      | Some spec \<Rightarrow>
     (case ChaincodeSpec.Input spec of
        None \<Rightarrow> Error InvalidVsccInvocation
      | Some inp \<Rightarrow>
     (case Args inp of
        None \<Rightarrow> Error InvalidVsccInvocation
      | Some [] \<Rightarrow> Panic IndexOutOfRange
      | Some (a0 # lsccArgs) \<Rightarrow>
          (let lsccFunc = a0
           in if lsccFunc = DEPLOY then Success
              else if lsccFunc = UPGRADE then Success
              else Error (InvalidLsccFunction lsccFunc)))))))"

subsection \<open>Invoke (lines 56 to 167)\<close>

text \<open>
  The body of the loop over \<^verbatim>\<open>tx.Actions\<close> for one action (lines 119 to 161): the result
  is \<open>Success\<close> when the body reaches its end, otherwise what the body returns from
  \<^verbatim>\<open>Invoke\<close> with. \<open>hdr\<close> is \<^verbatim>\<open>payl.Header\<close>. The code reads
  \<^verbatim>\<open>cap.Action.ProposalResponsePayload\<close> and \<^verbatim>\<open>hdrExt.ChaincodeId.Name\<close> (and, in
  \<^verbatim>\<open>Invoke\<close>, \<^verbatim>\<open>payl.Header.ChannelHeader\<close>) without testing the pointer: on
  \<^verbatim>\<open>nil\<close> the Go runtime panics. The elements of \<^verbatim>\<open>tx.Actions\<close> and of
  \<^verbatim>\<open>Endorsements\<close> are the messages themselves. The second component of the result lists
  the calls made.
\<close>

definition validate_action ::
  "collaborators \<Rightarrow> policy \<Rightarrow> Header \<Rightarrow> TransactionAction \<Rightarrow> result \<times> event list" where
  "validate_action c policy hdr act =
     (case GetChaincodeActionPayload c (TransactionAction.Payload act) of
        Inl m \<Rightarrow> (Error (GetChaincodeActionPayloadFailed m), [])
      | Inr cap' \<Rightarrow>
     (case Action cap' of
        None \<Rightarrow> (Panic NilPointerDereference, [])
      | Some ea \<Rightarrow>
     (let signatureSet = build_signatureSet ea
      in case policy signatureSet of
        Some m \<Rightarrow> (Error (PolicyEvaluationFailed m), [Evaluate signatureSet])
      | None \<Rightarrow>
     (case GetChaincodeHeaderExtension c hdr of
        Inl m \<Rightarrow> (Error (GetChaincodeHeaderExtensionFailed m), [Evaluate signatureSet])
      | Inr hdrExt \<Rightarrow>
     (case ChaincodeId hdrExt of
        None \<Rightarrow> (Panic NilPointerDereference, [Evaluate signatureSet])
      | Some ccid \<Rightarrow>
          if Name ccid = ''lscc''
          then (ValidateLSCCInvocation c cap', [Evaluate signatureSet, ValidateLSCC cap'])
          else (Success, [Evaluate signatureSet]))))))"

text \<open>The loop: it leaves at the first action whose body does not reach its end.\<close>

fun validate_actions ::
  "collaborators \<Rightarrow> policy \<Rightarrow> Header \<Rightarrow> TransactionAction list \<Rightarrow> result \<times> event list" where
  "validate_actions c policy hdr [] = (Success, [])"
| "validate_actions c policy hdr (act # acts) =
     (case validate_action c policy hdr act of
        (Success, evs) \<Rightarrow>
          (case validate_actions c policy hdr acts of (r, evs') \<Rightarrow> (r, evs @ evs'))
      | (r, evs) \<Rightarrow> (r, evs))"

text \<open>
  \<open>args\<close> is \<^verbatim>\<open>stub.GetArgs()\<close>: a list of byte slices, \<open>None\<close> for a \<^verbatim>\<open>nil\<close> slice and
  \<open>Some []\<close> for an empty one that is not \<^verbatim>\<open>nil\<close>.
\<close>

definition Invoke :: "collaborators \<Rightarrow> bytes option list \<Rightarrow> result \<times> event list" where
  "Invoke c args =
     (if length args < 3 then (Error IncorrectNumberOfArguments, [])
      else case args ! 1 of
        None \<Rightarrow> (Error NoBlockToValidate, [])
      | Some block \<Rightarrow>
     (case args ! 2 of
        None \<Rightarrow> (Error NoPolicySupplied, [])
      | Some policyBytes \<Rightarrow>
     (case GetEnvelopeFromBlock c block of
        Inl m \<Rightarrow> (Error (GetEnvelopeFailed m), [])
      | Inr env \<Rightarrow>
     (case GetPayload c env of
        Inl m \<Rightarrow> (Error (GetPayloadFailed m), [])
      | Inr payl \<Rightarrow>
     (case Payload.Header payl of
        None \<Rightarrow> (Panic NilPointerDereference, [])
      | Some hdr \<Rightarrow>
     (case UnmarshalChannelHeader c (ChannelHeader hdr) of
        Inl m \<Rightarrow> (Error (UnmarshalChannelHeaderFailed m), [])
      | Inr chdr \<Rightarrow>
     (case NewPolicy c (ChannelId chdr) policyBytes of
        Inl m \<Rightarrow> (Error (NewPolicyFailed m), [])
      | Inr policy \<Rightarrow>
          if Type chdr \<noteq> HeaderType_ENDORSER_TRANSACTION
          then (Error (OnlyEndorserTransactionsSupported (Type chdr)), [])
          else (case GetTransaction c (Payload.Data payl) of
                  Inl m \<Rightarrow> (Error (GetTransactionFailed m), [])
                | Inr tx \<Rightarrow> validate_actions c policy hdr (Actions tx)))))))))"

subsection \<open>Notions the properties are stated with\<close>

text \<open>
  What a reference returned by \<open>go_append a n I\<close> is, in terms that stay true when later
  appends write into the array: a shared slice of length \<open>n + length I\<close> within the capacity,
  or an own array holding the first \<open>n\<close> bytes followed by \<open>I\<close>.
\<close>

definition ref_ok :: "bytes \<Rightarrow> nat \<Rightarrow> bytes \<Rightarrow> data_ref \<Rightarrow> bool" where
  "ref_ok a n I d =
     (case d of
        Shared m \<Rightarrow> m = n + length I \<and> m \<le> length a
      | Own bs \<Rightarrow> bs = take n a @ I \<and> length a < n + length I)"

text \<open>
  The chaincode name of the header extension of \<^verbatim>\<open>payl.Header\<close> is \<^verbatim>\<open>"lscc"\<close>
  (line 155, with the decoding of line 148).
\<close>

definition targets_lscc :: "collaborators \<Rightarrow> Header \<Rightarrow> bool" where
  "targets_lscc c hdr =
     (case GetChaincodeHeaderExtension c hdr of
        Inl m \<Rightarrow> False
      | Inr hdrExt \<Rightarrow> (case ChaincodeId hdrExt of None \<Rightarrow> False | Some ccid \<Rightarrow> Name ccid = ''lscc''))"

text \<open>
  The action gets as far as line 148: its payload decodes, it has an endorsed action and its
  signature set satisfies the policy.
\<close>

definition passes_policy :: "collaborators \<Rightarrow> policy \<Rightarrow> TransactionAction \<Rightarrow> bool" where
  "passes_policy c policy act =
     (case GetChaincodeActionPayload c (TransactionAction.Payload act) of
        Inl m \<Rightarrow> False
      | Inr cap' \<Rightarrow>
          (case Action cap' of
             None \<Rightarrow> False
           | Some ea \<Rightarrow> policy (build_signatureSet ea) = None))"

text \<open>
  The action passes the lifecycle guard where it applies: the header extension decodes and
  names a chaincode, and if that chaincode is \<^verbatim>\<open>"lscc"\<close> then
  \<^verbatim>\<open>ValidateLSCCInvocation\<close> returns \<^verbatim>\<open>nil\<close> on the decoded payload.
\<close>

definition passes_guard :: "collaborators \<Rightarrow> Header \<Rightarrow> TransactionAction \<Rightarrow> bool" where
  "passes_guard c hdr act =
     (case GetChaincodeHeaderExtension c hdr of
        Inl m \<Rightarrow> False
      | Inr hdrExt \<Rightarrow>
          (case ChaincodeId hdrExt of
             None \<Rightarrow> False
           | Some ccid \<Rightarrow>
               Name ccid = ''lscc'' \<longrightarrow>
                 (case GetChaincodeActionPayload c (TransactionAction.Payload act) of
                    Inl m \<Rightarrow> False
                  | Inr cap' \<Rightarrow> ValidateLSCCInvocation c cap' = Success)))"

definition action_passes :: "collaborators \<Rightarrow> policy \<Rightarrow> Header \<Rightarrow> TransactionAction \<Rightarrow> bool" where
  "action_passes c policy hdr act \<longleftrightarrow> passes_policy c policy act \<and> passes_guard c hdr act"

text \<open>The payloads \<^verbatim>\<open>ValidateLSCCInvocation\<close> was called with, and the number of policy evaluations.\<close>

fun guard_calls :: "event list \<Rightarrow> ChaincodeActionPayload list" where
  "guard_calls [] = []"
| "guard_calls (ValidateLSCC cap' # evs) = cap' # guard_calls evs"
| "guard_calls (Evaluate ss # evs) = guard_calls evs"

fun evaluate_calls :: "event list \<Rightarrow> nat" where
  "evaluate_calls [] = 0"
| "evaluate_calls (Evaluate ss # evs) = Suc (evaluate_calls evs)"
| "evaluate_calls (ValidateLSCC cap' # evs) = evaluate_calls evs"

subsection \<open>Example inputs\<close>

text \<open>
  An endorsed action whose proposal response payload has one byte and two bytes of spare
  capacity, with two endorsements.
\<close>

definition aliased_action :: ChaincodeEndorsedAction where
  "aliased_action =
     \<lparr>ProposalResponsePayload = \<lparr>elems = ''P'', spare = ''__''\<rparr>,
      Endorsements = [\<lparr>Endorser = ''A'', Signature = ''sa''\<rparr>,
                      \<lparr>Endorser = ''B'', Signature = ''sb''\<rparr>]\<rparr>"

text \<open>
  An endorsed action whose proposal response payload has four bytes and four bytes of spare
  capacity, with three endorsements.
\<close>

definition three_endorsements :: ChaincodeEndorsedAction where
  "three_endorsements =
     \<lparr>ProposalResponsePayload = \<lparr>elems = ''resp'', spare = ''....''\<rparr>,
      Endorsements = [\<lparr>Endorser = ''org1'', Signature = ''s1''\<rparr>,
                      \<lparr>Endorser = ''org2'', Signature = ''s2''\<rparr>,
                      \<lparr>Endorser = ''org3'', Signature = ''s3''\<rparr>]\<rparr>"

text \<open>A policy that is satisfied by a non-empty signature set all of whose signatures are "ok".\<close>

definition demo_policy :: policy where
  "demo_policy ss =
     (if ss \<noteq> [] \<and> list_all (\<lambda>e. case e of None \<Rightarrow> False
                                      | Some sd \<Rightarrow> SignedData.Signature sd = ''ok'') ss
      then None else Some ''signature set does not satisfy policy'')"

text \<open>
  A small codec. The first byte of the envelope is its channel header (\<open>E\<close> for an endorser
  transaction); the transaction carries the actions \<open>acts\<close> and targets the chaincode
  \<open>ccname\<close>; the first two bytes of an action's payload are the signature of its one
  endorsement, the rest is the proposal payload, which is also the single argument of the
  invocation ("nil" for a nil argument list, empty for an empty one). Only the policy bytes
  "sig" compile.
\<close>

definition demo :: "string \<Rightarrow> TransactionAction list \<Rightarrow> collaborators" where
  "demo ccname acts =
     \<lparr>GetEnvelopeFromBlock =
        (\<lambda>b. if b = [] then Inl ''empty envelope''
             else Inr \<lparr>Envelope.Payload = b, Signature = []\<rparr>),
      GetPayload =
        (\<lambda>env. Inr \<lparr>Payload.Header =
                       Some \<lparr>ChannelHeader = take 1 (Envelope.Payload env), SignatureHeader = []\<rparr>,
                     Data = drop 1 (Envelope.Payload env)\<rparr>),
      UnmarshalChannelHeader =
        (\<lambda>b. Inr \<lparr>Type = (if b = ''E'' then 3 else 0), ChannelId = ''ch''\<rparr>),
      NewPolicy = (\<lambda>ch pb. if pb = ''sig'' then Inr demo_policy else Inl ''bad policy''),
      GetTransaction = (\<lambda>b. Inr \<lparr>Actions = acts\<rparr>),
      GetChaincodeActionPayload =
        (\<lambda>b. Inr \<lparr>ChaincodeProposalPayload = drop 2 b,
                   Action = Some \<lparr>ProposalResponsePayload = exact ''resp'',
                                   Endorsements = [\<lparr>Endorser = ''org1'', Signature = take 2 b\<rparr>]\<rparr>\<rparr>),
      GetChaincodeHeaderExtension = (\<lambda>h. Inr \<lparr>ChaincodeId = Some \<lparr>Name = ccname\<rparr>\<rparr>),
      GetChaincodeProposalPayload = (\<lambda>b. Inr \<lparr>ChaincodeProposalPayload.Input = b\<rparr>),
      UnmarshalInvocationSpec =
        (\<lambda>b. Inr \<lparr>ChaincodeSpec =
                     Some \<lparr>ChaincodeSpec.Input =
                             Some \<lparr>Args = (if b = ''nil'' then None
                                             else if b = [] then Some [] else Some [b])\<rparr>\<rparr>\<rparr>)\<rparr>"

definition action :: "bytes \<Rightarrow> TransactionAction" where
  "action b = \<lparr>TransactionAction.Header = [], Payload = b\<rparr>"

text \<open>
  The protobuf unmarshaller appends to a repeated field once for each element on the wire
  and leaves the field nil otherwise, so an argument list it has decoded is nil or has an
  element. \<^verbatim>\<open>proto.Unmarshal\<close> is not in the file: the property is stated of the
  collaborator and is a hypothesis where it is needed.
\<close>

definition repeated_field_nil_when_empty :: "collaborators \<Rightarrow> bool" where
  "repeated_field_nil_when_empty c \<longleftrightarrow>
     (\<forall>b cis spec inp.
        UnmarshalInvocationSpec c b = Inr cis \<longrightarrow>
        ChaincodeSpec cis = Some spec \<longrightarrow>
        ChaincodeSpec.Input spec = Some inp \<longrightarrow>
        Args inp \<noteq> Some [])"


text \<open>The header that the small codec decodes from an endorser-transaction envelope.\<close>

definition demo_hdr :: Header where
  "demo_hdr = \<lparr>ChannelHeader = ''E'', SignatureHeader = []\<rparr>"

section \<open>Properties of the signature set\<close>

lemma ref_ok_stable:
  "ref_ok a n I d \<Longrightarrow> length a' = length a \<Longrightarrow> take n a' = take n a \<Longrightarrow> ref_ok a' n I d"
  by (simp add: ref_ok_def split: data_ref.splits)

lemma go_append_spec:
  "go_append a n xs = (a', d) \<Longrightarrow>
     length a' = length a \<and> take n a' = take n a \<and> (length a = n \<longrightarrow> a' = a) \<and> ref_ok a' n xs d"
  by (auto simp: go_append_def ref_ok_def split: if_splits)

text \<open>
  The loop invariant: the backing array keeps its length and its first \<open>n\<close> bytes, the
  entries below \<open>i\<close> are left alone, and entry \<open>i + j\<close> is built from endorsement \<open>j\<close>.
\<close>

lemma fill_spec:
  "i + length es \<le> length ss \<Longrightarrow> fill_signatureSet i es a n ss = (a', ss') \<Longrightarrow>
     length a' = length a \<and> take n a' = take n a \<and> (length a = n \<longrightarrow> a' = a) \<and>
     length ss' = length ss \<and> (\<forall>k<i. ss' ! k = ss ! k) \<and>
     (\<forall>j<length es. \<exists>d. ss' ! (i + j) =
          Some \<lparr>SignedData.Data = d, Identity = Endorser (es ! j),
                 Signature = Endorsement.Signature (es ! j)\<rparr>
        \<and> ref_ok a' n (Endorser (es ! j)) d)"
proof (induction es arbitrary: i a ss a' ss')
  case Nil
  then show ?case by simp
next
  case (Cons e es)
  obtain a1 d1 where g: "go_append a n (Endorser e) = (a1, d1)"
    by (cases "go_append a n (Endorser e)")
  let ?ss1 = "ss[i := Some \<lparr>SignedData.Data = d1, Identity = Endorser e,
                             Signature = Endorsement.Signature e\<rparr>]"
  from Cons.prems(2) g have f: "fill_signatureSet (Suc i) es a1 n ?ss1 = (a', ss')"
    by simp
  from Cons.prems(1) have b: "Suc i + length es \<le> length ?ss1" by simp
  note ih = Cons.IH [OF b f]
  note gs = go_append_spec [OF g]
  have len: "length a' = length a" using ih gs by simp
  have tk: "take n a' = take n a" using ih gs by simp
  have same: "length a = n \<longrightarrow> a' = a" using ih gs by simp
  have lss: "length ss' = length ss" using ih by simp
  have keep: "\<forall>k<i. ss' ! k = ss ! k" using ih by simp
  have at_i: "ss' ! i = Some \<lparr>SignedData.Data = d1, Identity = Endorser e,
                               Signature = Endorsement.Signature e\<rparr>"
    using ih Cons.prems(1) by simp
  have ok1: "ref_ok a' n (Endorser e) d1"
  proof (rule ref_ok_stable [of a1])
    show "ref_ok a1 n (Endorser e) d1" using gs by simp
    show "length a' = length a1" using ih by simp
    show "take n a' = take n a1" using ih by simp
  qed
  have entries: "\<forall>j<length (e # es). \<exists>d. ss' ! (i + j) =
          Some \<lparr>SignedData.Data = d, Identity = Endorser ((e # es) ! j),
                 Signature = Endorsement.Signature ((e # es) ! j)\<rparr>
        \<and> ref_ok a' n (Endorser ((e # es) ! j)) d"
  proof (intro allI impI)
    fix j assume j: "j < length (e # es)"
    show "\<exists>d. ss' ! (i + j) =
          Some \<lparr>SignedData.Data = d, Identity = Endorser ((e # es) ! j),
                 Signature = Endorsement.Signature ((e # es) ! j)\<rparr>
        \<and> ref_ok a' n (Endorser ((e # es) ! j)) d"
    proof (cases j)
      case 0
      then show ?thesis using at_i ok1 by simp
    next
      case (Suc j')
      with j have "j' < length es" by simp
      with ih obtain d where "ss' ! (Suc i + j') =
          Some \<lparr>SignedData.Data = d, Identity = Endorser (es ! j'),
                 Signature = Endorsement.Signature (es ! j')\<rparr>
        \<and> ref_ok a' n (Endorser (es ! j')) d" by blast
      then show ?thesis using Suc by auto
    qed
  qed
  show ?case using len tk same lss keep entries by blast
qed

lemma load_ref_ok:
  "ref_ok a n I d \<Longrightarrow> n \<le> length a \<Longrightarrow>
     length (load a d) = n + length I \<and> take n (load a d) = take n a"
  by (cases d) (auto simp: ref_ok_def)

lemma load_ref_ok_exact:
  "ref_ok a n I d \<Longrightarrow> length a = n \<Longrightarrow> load a d = a @ I"
  by (cases d) (auto simp: ref_ok_def)

lemma build_length: "length (build_signatureSet ea) = length (Endorsements ea)"
proof -
  let ?p = "ProposalResponsePayload ea"
  let ?es = "Endorsements ea"
  obtain a' ss' where f:
    "fill_signatureSet 0 ?es (arr ?p) (len ?p) (replicate (length ?es) None) = (a', ss')"
    by (cases "fill_signatureSet 0 ?es (arr ?p) (len ?p) (replicate (length ?es) None)")
  have b: "0 + length ?es \<le> length (replicate (length ?es) (None :: data_ref SignedData option))"
    by simp
  from fill_spec [OF b f] have "length ss' = length ?es" by simp
  then show ?thesis using f by (simp add: build_signatureSet_def Let_def)
qed

text \<open>
  Entry \<open>i\<close> of the signature set, as the evaluator reads it: identity and signature are those of
  endorsement \<open>i\<close>; the data has the length of payload plus identity and starts with the
  payload; when the payload slice has no spare capacity the data is payload followed by
  identity.
\<close>

lemma build_nth:
  assumes i: "i < length (Endorsements ea)"
  shows "\<exists>dat. build_signatureSet ea ! i =
           Some \<lparr>SignedData.Data = dat, Identity = Endorser (Endorsements ea ! i),
                  Signature = Endorsement.Signature (Endorsements ea ! i)\<rparr>
         \<and> length dat = len (ProposalResponsePayload ea) + length (Endorser (Endorsements ea ! i))
         \<and> take (len (ProposalResponsePayload ea)) dat = elems (ProposalResponsePayload ea)
         \<and> (spare (ProposalResponsePayload ea) = [] \<longrightarrow>
              dat = elems (ProposalResponsePayload ea) @ Endorser (Endorsements ea ! i))"
proof -
  let ?p = "ProposalResponsePayload ea"
  let ?es = "Endorsements ea"
  obtain a' ss' where f:
    "fill_signatureSet 0 ?es (arr ?p) (len ?p) (replicate (length ?es) None) = (a', ss')"
    by (cases "fill_signatureSet 0 ?es (arr ?p) (len ?p) (replicate (length ?es) None)")
  have b: "0 + length ?es \<le> length (replicate (length ?es) (None :: data_ref SignedData option))"
    by simp
  note sp = fill_spec [OF b f]
  from sp i obtain d where d:
    "ss' ! i = Some \<lparr>SignedData.Data = d, Identity = Endorser (?es ! i),
                      Signature = Endorsement.Signature (?es ! i)\<rparr>"
    "ref_ok a' (len ?p) (Endorser (?es ! i)) d"
    by fastforce
  have la: "length a' = length (arr ?p)" and ta: "take (len ?p) a' = elems ?p"
    using sp by (simp_all add: arr_def len_def)
  have wf: "len ?p \<le> length a'" using la by (simp add: arr_def len_def)
  have lss: "length ss' = length ?es" using sp by simp
  have bi: "build_signatureSet ea ! i =
      Some \<lparr>SignedData.Data = load a' d, Identity = Endorser (?es ! i),
             Signature = Endorsement.Signature (?es ! i)\<rparr>"
    using f d(1) i lss by (simp add: build_signatureSet_def Let_def load_entry_def)
  have ex: "spare ?p = [] \<longrightarrow> load a' d = elems ?p @ Endorser (?es ! i)"
  proof
    assume s: "spare ?p = []"
    then have "length (arr ?p) = len ?p" by (simp add: arr_def len_def)
    with sp have "a' = arr ?p" and "length a' = len ?p" by simp_all
    with load_ref_ok_exact [OF d(2)] s show "load a' d = elems ?p @ Endorser (?es ! i)"
      by (simp add: arr_def)
  qed
  show ?thesis using bi load_ref_ok [OF d(2) wf] ta ex by simp
qed

text \<open>
  When the proposal response payload has no spare capacity (\<^verbatim>\<open>cap == len\<close>), every append allocates (or, for
  an empty identity, returns the payload itself) and each entry holds payload followed by
  identity.
\<close>

lemma build_signatureSet_exact:
  assumes "cap (ProposalResponsePayload ea) = len (ProposalResponsePayload ea)"
  shows "build_signatureSet ea =
           map (\<lambda>e. Some \<lparr>SignedData.Data = elems (ProposalResponsePayload ea) @ Endorser e,
                           Identity = Endorser e, Signature = Endorsement.Signature e\<rparr>)
               (Endorsements ea)"
    (is "_ = ?rhs")
proof (rule nth_equalityI)
  show "length (build_signatureSet ea) = length ?rhs"
    by (simp add: build_length)
next
  fix i assume "i < length (build_signatureSet ea)"
  then have i: "i < length (Endorsements ea)" by (simp add: build_length)
  from assms have "spare (ProposalResponsePayload ea) = []"
    by (simp add: cap_def len_def arr_def)
  with build_nth [OF i] i
  show "build_signatureSet ea ! i = ?rhs ! i"
    by auto
qed

text \<open>
  C1. The claim: for every action and every endorsement \<open>e\<close> of it, the entry built for \<open>e\<close>
  has data equal to the proposal response payload followed by the identity of \<open>e\<close>. With a
  payload \<open>P\<close> that has spare capacity and the endorsers \<open>A\<close> and \<open>B\<close>, both appends write
  into the backing array of the payload, the second over the first: when the policy is
  evaluated the entry of \<open>A\<close> holds \<open>PB\<close>, which is not \<open>P\<close> followed by \<open>A\<close>.
\<close>

theorem signed_data_overwritten_by_later_append:
  "build_signatureSet aliased_action =
     [Some \<lparr>SignedData.Data = ''PB'', Identity = ''A'', Signature = ''sa''\<rparr>,
      Some \<lparr>SignedData.Data = ''PB'', Identity = ''B'', Signature = ''sb''\<rparr>]
   \<and> elems (ProposalResponsePayload aliased_action) @ Endorser (Endorsements aliased_action ! 0)
       = ''PA''"
  by (simp add: build_signatureSet_def aliased_action_def arr_def len_def go_append_def
      load_entry_def)

text \<open>
  What holds of the signature set for every action: it has as many entries as the action
  has endorsements; entry \<open>i\<close> is not nil and carries the identity and the signature of
  endorsement \<open>i\<close>; its data is as long as payload plus that identity and starts with the
  payload; when the payload slice has no spare capacity (\<^verbatim>\<open>cap == len\<close>) its data is the
  payload followed by the identity of endorsement \<open>i\<close>; no endorsements give the empty
  signature set.
\<close>

lemma signatureSet_entries:
  "length (build_signatureSet ea) = length (Endorsements ea)
   \<and> (\<forall>i<length (Endorsements ea).
        \<exists>dat. build_signatureSet ea ! i =
                 Some \<lparr>SignedData.Data = dat, Identity = Endorser (Endorsements ea ! i),
                        Signature = Endorsement.Signature (Endorsements ea ! i)\<rparr>
            \<and> length dat = len (ProposalResponsePayload ea)
                             + length (Endorser (Endorsements ea ! i))
            \<and> take (len (ProposalResponsePayload ea)) dat = elems (ProposalResponsePayload ea)
            \<and> (cap (ProposalResponsePayload ea) = len (ProposalResponsePayload ea) \<longrightarrow>
                 dat = elems (ProposalResponsePayload ea) @ Endorser (Endorsements ea ! i)))
   \<and> (Endorsements ea = [] \<longrightarrow> build_signatureSet ea = [])"
proof (intro conjI allI impI)
  show "length (build_signatureSet ea) = length (Endorsements ea)"
    by (rule build_length)
next
  fix i assume "i < length (Endorsements ea)"
  from build_nth [OF this] obtain dat where d:
    "build_signatureSet ea ! i =
       Some \<lparr>SignedData.Data = dat, Identity = Endorser (Endorsements ea ! i),
              Signature = Endorsement.Signature (Endorsements ea ! i)\<rparr>"
    "length dat = len (ProposalResponsePayload ea) + length (Endorser (Endorsements ea ! i))"
    "take (len (ProposalResponsePayload ea)) dat = elems (ProposalResponsePayload ea)"
    "spare (ProposalResponsePayload ea) = [] \<longrightarrow>
       dat = elems (ProposalResponsePayload ea) @ Endorser (Endorsements ea ! i)"
    by blast
  have "cap (ProposalResponsePayload ea) = len (ProposalResponsePayload ea) \<longrightarrow>
          dat = elems (ProposalResponsePayload ea) @ Endorser (Endorsements ea ! i)"
    using d(4) by (simp add: cap_def len_def arr_def)
  with d(1,2,3)
  show "\<exists>dat. build_signatureSet ea ! i =
                 Some \<lparr>SignedData.Data = dat, Identity = Endorser (Endorsements ea ! i),
                        Signature = Endorsement.Signature (Endorsements ea ! i)\<rparr>
            \<and> length dat = len (ProposalResponsePayload ea)
                             + length (Endorser (Endorsements ea ! i))
            \<and> take (len (ProposalResponsePayload ea)) dat = elems (ProposalResponsePayload ea)
            \<and> (cap (ProposalResponsePayload ea) = len (ProposalResponsePayload ea) \<longrightarrow>
                 dat = elems (ProposalResponsePayload ea) @ Endorser (Endorsements ea ! i))"
    by blast
next
  assume "Endorsements ea = []"
  then show "build_signatureSet ea = []"
    using build_length [of ea] by simp
qed

text \<open>
  C5. The claim: the signature set has as many entries as the action has endorsements, and
  the entry at every index \<open>i\<close> is derived from the endorsement at index \<open>i\<close>. The count, the
  order, the identities and the signatures are as claimed, but with a payload \<open>resp\<close> that
  has four bytes of spare capacity and the endorsers \<open>org1\<close>, \<open>org2\<close> and \<open>org3\<close>, the three
  appends of line 134 write into the same backing array: when the policy is evaluated the
  entries at index 0 and 1 hold the data \<open>resporg3\<close>, built from the endorsement at index 2.
\<close>

theorem signature_entries_hold_last_identity:
  "build_signatureSet three_endorsements =
     [Some \<lparr>SignedData.Data = ''resporg3'', Identity = ''org1'', Signature = ''s1''\<rparr>,
      Some \<lparr>SignedData.Data = ''resporg3'', Identity = ''org2'', Signature = ''s2''\<rparr>,
      Some \<lparr>SignedData.Data = ''resporg3'', Identity = ''org3'', Signature = ''s3''\<rparr>]
   \<and> map Endorser (Endorsements three_endorsements) = [''org1'', ''org2'', ''org3'']
   \<and> elems (ProposalResponsePayload three_endorsements) = ''resp''"
  by (simp add: build_signatureSet_def three_endorsements_def arr_def len_def go_append_def
      load_entry_def)

section \<open>The lifecycle guard\<close>

text \<open>
  C2. For an lscc action whose invocation spec decodes and passes the nil checks of lines 183
  to 186, \<^verbatim>\<open>ValidateLSCCInvocation\<close> returns \<^verbatim>\<open>nil\<close> exactly when the argument
  list has a first argument and that argument is, byte for byte, "deploy" or "upgrade"; any
  other first argument (the empty string, "invoke", "Deploy", ...) is rejected with the error
  of line 205, a LifecycleInvocationError.
\<close>

theorem lscc_allow_list:
  assumes "GetChaincodeProposalPayload c (ChaincodeProposalPayload cap') = Inr cpp"
    and "UnmarshalInvocationSpec c (ChaincodeProposalPayload.Input cpp) = Inr cis"
    and "ChaincodeSpec cis = Some spec"
    and "ChaincodeSpec.Input spec = Some inp"
    and "Args inp = Some args"
  shows "(ValidateLSCCInvocation c cap' = Success
            \<longleftrightarrow> args \<noteq> [] \<and> (hd args = ''deploy'' \<or> hd args = ''upgrade''))
       \<and> (args \<noteq> [] \<and> hd args \<noteq> ''deploy'' \<and> hd args \<noteq> ''upgrade''
            \<longrightarrow> ValidateLSCCInvocation c cap' = Error (InvalidLsccFunction (hd args))
              \<and> kind_of (InvalidLsccFunction (hd args)) = LifecycleInvocationError)"
  using assms
  by (cases args) (simp_all add: ValidateLSCCInvocation_def DEPLOY_def UPGRADE_def)

text \<open>
  The theorem at two invocations of the small codec: "upgrade" is accepted, "Deploy" (a case
  variant of "deploy") is rejected.
\<close>

theorem lscc_allow_list_witness:
  "ValidateLSCCInvocation (demo ''lscc'' []) \<lparr>ChaincodeProposalPayload = ''upgrade'', Action = None\<rparr>
     = Success
   \<and> ValidateLSCCInvocation (demo ''lscc'' []) \<lparr>ChaincodeProposalPayload = ''Deploy'', Action = None\<rparr>
     = Error (InvalidLsccFunction ''Deploy'')"
proof -
  let ?c = "demo ''lscc'' []"
  have up: "ValidateLSCCInvocation ?c \<lparr>ChaincodeProposalPayload = ''upgrade'', Action = None\<rparr>
     = Success"
    using lscc_allow_list [of ?c "\<lparr>ChaincodeProposalPayload = ''upgrade'', Action = None\<rparr>"
        "\<lparr>ChaincodeProposalPayload.Input = ''upgrade''\<rparr>"
        "\<lparr>ChaincodeSpec = Some \<lparr>ChaincodeSpec.Input = Some \<lparr>Args = Some [''upgrade'']\<rparr>\<rparr>\<rparr>"
        "\<lparr>ChaincodeSpec.Input = Some \<lparr>Args = Some [''upgrade'']\<rparr>\<rparr>"
        "\<lparr>Args = Some [''upgrade'']\<rparr>" "[''upgrade'']"]
    by (simp add: demo_def)
  have dep: "ValidateLSCCInvocation ?c \<lparr>ChaincodeProposalPayload = ''Deploy'', Action = None\<rparr>
     = Error (InvalidLsccFunction ''Deploy'')"
    using lscc_allow_list [of ?c "\<lparr>ChaincodeProposalPayload = ''Deploy'', Action = None\<rparr>"
        "\<lparr>ChaincodeProposalPayload.Input = ''Deploy''\<rparr>"
        "\<lparr>ChaincodeSpec = Some \<lparr>ChaincodeSpec.Input = Some \<lparr>Args = Some [''Deploy'']\<rparr>\<rparr>\<rparr>"
        "\<lparr>ChaincodeSpec.Input = Some \<lparr>Args = Some [''Deploy'']\<rparr>\<rparr>"
        "\<lparr>Args = Some [''Deploy'']\<rparr>" "[''Deploy'']"]
    by (simp add: demo_def)
  from up dep show ?thesis by simp
qed

text \<open>
  C7. When the outer layers decode and the chaincode spec, its input or the argument list of
  the decoded invocation spec is nil, the guard returns the error of line 188, a
  LifecycleInvocationError. (The invocation spec itself is the address of a fresh struct and
  is never nil.)
\<close>

theorem null_invocation_rejected:
  assumes "GetChaincodeProposalPayload c (ChaincodeProposalPayload cap') = Inr cpp"
    and "UnmarshalInvocationSpec c (ChaincodeProposalPayload.Input cpp) = Inr cis"
    and "ChaincodeSpec cis = None
         \<or> (\<exists>spec. ChaincodeSpec cis = Some spec \<and> ChaincodeSpec.Input spec = None)
         \<or> (\<exists>spec inp. ChaincodeSpec cis = Some spec \<and> ChaincodeSpec.Input spec = Some inp
               \<and> Args inp = None)"
  shows "ValidateLSCCInvocation c cap' = Error InvalidVsccInvocation
       \<and> kind_of InvalidVsccInvocation = LifecycleInvocationError"
  using assms by (auto simp: ValidateLSCCInvocation_def)

text \<open>The theorem at an invocation whose argument list is nil.\<close>

theorem null_invocation_rejected_witness:
  "ValidateLSCCInvocation (demo ''lscc'' []) \<lparr>ChaincodeProposalPayload = ''nil'', Action = None\<rparr>
     = Error InvalidVsccInvocation"
proof -
  let ?c = "demo ''lscc'' []"
  let ?cis = "\<lparr>ChaincodeSpec = Some \<lparr>ChaincodeSpec.Input = Some \<lparr>Args = None\<rparr>\<rparr>\<rparr>"
  have h1: "GetChaincodeProposalPayload ?c
              (ChaincodeProposalPayload \<lparr>ChaincodeProposalPayload = ''nil'', Action = None\<rparr>)
            = Inr \<lparr>ChaincodeProposalPayload.Input = ''nil''\<rparr>"
    by (simp add: demo_def)
  have h2: "UnmarshalInvocationSpec ?c
              (ChaincodeProposalPayload.Input \<lparr>ChaincodeProposalPayload.Input = ''nil''\<rparr>)
            = Inr ?cis"
    by (simp add: demo_def)
  have h3: "ChaincodeSpec ?cis = None
         \<or> (\<exists>spec. ChaincodeSpec ?cis = Some spec \<and> ChaincodeSpec.Input spec = None)
         \<or> (\<exists>spec inp. ChaincodeSpec ?cis = Some spec \<and> ChaincodeSpec.Input spec = Some inp
               \<and> Args inp = None)"
    by simp
  from null_invocation_rejected [OF h1 h2 h3] show ?thesis by simp
qed



text \<open>
  The hypothesis on the unmarshaller is needed: were a collaborator to return an argument
  list that is empty and not nil, it would pass the test of line 186 and the index of line
  191 would be out of range.
\<close>

lemma index_of_empty_argument_list:
  "\<not> repeated_field_nil_when_empty (demo ''lscc'' [])
   \<and> ValidateLSCCInvocation (demo ''lscc'' []) \<lparr>ChaincodeProposalPayload = [], Action = None\<rparr>
     = Panic IndexOutOfRange"
proof -
  have "UnmarshalInvocationSpec (demo ''lscc'' []) [] =
          Inr \<lparr>ChaincodeSpec = Some \<lparr>ChaincodeSpec.Input = Some \<lparr>Args = Some []\<rparr>\<rparr>\<rparr>"
    by (simp add: demo_def)
  then have "\<not> repeated_field_nil_when_empty (demo ''lscc'' [])"
    unfolding repeated_field_nil_when_empty_def
    by (metis ChaincodeInput.select_convs(1) ChaincodeInvocationSpec.select_convs(1)
        ChaincodeSpec.select_convs(1))
  moreover have "ValidateLSCCInvocation (demo ''lscc'' [])
      \<lparr>ChaincodeProposalPayload = [], Action = None\<rparr> = Panic IndexOutOfRange"
    by (simp add: ValidateLSCCInvocation_def demo_def)
  ultimately show ?thesis by simp
qed

section \<open>The loop over the actions\<close>

lemmas demo_eval = Invoke_def demo_def action_def HeaderType_ENDORSER_TRANSACTION_def
  validate_action_def build_signatureSet_def exact_def arr_def len_def go_append_def
  load_entry_def demo_policy_def ValidateLSCCInvocation_def DEPLOY_def UPGRADE_def

text \<open>The body of the loop reaches its end exactly for an action that passes.\<close>

lemma validate_action_Success_iff:
  "fst (validate_action c policy hdr act) = Success \<longleftrightarrow> action_passes c policy hdr act"
  by (simp add: validate_action_def action_passes_def passes_policy_def passes_guard_def Let_def
      split: sum.splits option.splits)

text \<open>
  For an action whose payload and header extension decode, passing is: the signature set
  satisfies the policy and, if the chaincode is "lscc", the guard returns \<^verbatim>\<open>nil\<close>.
\<close>

lemma action_passes_decoded:
  assumes "GetChaincodeActionPayload c (TransactionAction.Payload act) = Inr cap'"
    and "Action cap' = Some ea"
    and "GetChaincodeHeaderExtension c hdr = Inr hdrExt"
    and "ChaincodeId hdrExt = Some ccid"
  shows "action_passes c policy hdr act
           \<longleftrightarrow> policy (build_signatureSet ea) = None
               \<and> (Name ccid = ''lscc'' \<longrightarrow> ValidateLSCCInvocation c cap' = Success)"
  using assms by (simp add: action_passes_def passes_policy_def passes_guard_def)

lemma validate_actions_Cons_pass:
  "fst (validate_action c policy hdr act) = Success \<Longrightarrow>
     validate_actions c policy hdr (act # acts) =
       (fst (validate_actions c policy hdr acts),
        snd (validate_action c policy hdr act) @ snd (validate_actions c policy hdr acts))"
  by (cases "validate_action c policy hdr act"; cases "validate_actions c policy hdr acts") simp

lemma validate_actions_Cons_fail:
  "fst (validate_action c policy hdr act) \<noteq> Success \<Longrightarrow>
     validate_actions c policy hdr (act # acts) = validate_action c policy hdr act"
  by (cases "validate_action c policy hdr act") (auto split: result.splits)

lemma validate_actions_append:
  "\<forall>b\<in>set pre. fst (validate_action c policy hdr b) = Success \<Longrightarrow>
     validate_actions c policy hdr (pre @ rest) =
       (fst (validate_actions c policy hdr rest),
        concat (map (\<lambda>b. snd (validate_action c policy hdr b)) pre)
          @ snd (validate_actions c policy hdr rest))"
  by (induction pre) (simp_all add: validate_actions_Cons_pass del: validate_actions.simps(2))

lemma validate_actions_Success_iff:
  "fst (validate_actions c policy hdr acts) = Success
     \<longleftrightarrow> (\<forall>act\<in>set acts. fst (validate_action c policy hdr act) = Success)"
proof (induction acts)
  case Nil
  show ?case by simp
next
  case (Cons a acts)
  show ?case
  proof (cases "fst (validate_action c policy hdr a) = Success")
    case True
    then show ?thesis using Cons.IH
      by (simp add: validate_actions_Cons_pass del: validate_actions.simps(2))
  next
    case False
    then show ?thesis by (simp add: validate_actions_Cons_fail del: validate_actions.simps(2))
  qed
qed

lemma evaluate_calls_append:
  "evaluate_calls (evs @ evs') = evaluate_calls evs + evaluate_calls evs'"
  by (induction evs rule: evaluate_calls.induct) simp_all

lemma guard_calls_append:
  "guard_calls (evs @ evs') = guard_calls evs @ guard_calls evs'"
  by (induction evs rule: guard_calls.induct) simp_all

lemma evaluate_calls_action:
  "evaluate_calls (snd (validate_action c policy hdr act)) \<le> 1"
  by (simp add: validate_action_def Let_def split: sum.splits option.splits)

lemma evaluate_calls_concat:
  "evaluate_calls (concat (map (\<lambda>b. snd (validate_action c policy hdr b)) acts)) \<le> length acts"
proof (induction acts)
  case Nil
  show ?case by simp
next
  case (Cons a acts)
  have "evaluate_calls (snd (validate_action c policy hdr a)) \<le> 1"
    by (rule evaluate_calls_action)
  with Cons show ?case by (simp add: evaluate_calls_append)
qed

lemma validate_actions_first_failure:
  assumes pre: "\<forall>b\<in>set pre. fst (validate_action c policy hdr b) = Success"
    and fail: "fst (validate_action c policy hdr act) \<noteq> Success"
  shows "validate_actions c policy hdr (pre @ act # post) =
           (fst (validate_action c policy hdr act),
            concat (map (\<lambda>b. snd (validate_action c policy hdr b)) (pre @ [act])))"
  using validate_actions_append [OF pre, of "act # post"] fail
  by (simp add: validate_actions_Cons_fail del: validate_actions.simps(2))

lemma Invoke_reaches_loop:
  assumes "3 \<le> length args" and "args ! 1 = Some block" and "args ! 2 = Some policyBytes"
    and "GetEnvelopeFromBlock c block = Inr env" and "GetPayload c env = Inr payl"
    and "Payload.Header payl = Some hdr"
    and "UnmarshalChannelHeader c (ChannelHeader hdr) = Inr chdr"
    and "NewPolicy c (ChannelId chdr) policyBytes = Inr policy"
    and "Type chdr = HeaderType_ENDORSER_TRANSACTION"
    and "GetTransaction c (Payload.Data payl) = Inr tx"
  shows "Invoke c args = validate_actions c policy hdr (Actions tx)"
  using assms by (simp add: Invoke_def)

text \<open>
  C4. Once the envelope is unpacked and the policy compiled, validation returns success if
  and only if every action of the transaction passes the policy evaluation and, where the
  lifecycle chaincode is targeted, the lifecycle guard. Otherwise the result is that of the
  first action, in sequence order, that does not pass: the run is the run on the actions up
  to and including that one, the calls made are those of these actions only, and the policy
  is evaluated at most once for each of them.
\<close>

theorem validation_fails_fast:
  assumes "3 \<le> length args" and "args ! 1 = Some block" and "args ! 2 = Some policyBytes"
    and "GetEnvelopeFromBlock c block = Inr env" and "GetPayload c env = Inr payl"
    and "Payload.Header payl = Some hdr"
    and "UnmarshalChannelHeader c (ChannelHeader hdr) = Inr chdr"
    and "NewPolicy c (ChannelId chdr) policyBytes = Inr policy"
    and "Type chdr = HeaderType_ENDORSER_TRANSACTION"
    and "GetTransaction c (Payload.Data payl) = Inr tx"
  shows "(fst (Invoke c args) = Success
            \<longleftrightarrow> (\<forall>act\<in>set (Actions tx). action_passes c policy hdr act))
       \<and> (\<forall>pre act post.
            Actions tx = pre @ act # post
            \<and> (\<forall>b\<in>set pre. action_passes c policy hdr b)
            \<and> \<not> action_passes c policy hdr act
            \<longrightarrow> fst (Invoke c args) = fst (validate_action c policy hdr act)
              \<and> fst (Invoke c args) \<noteq> Success
              \<and> snd (Invoke c args)
                  = concat (map (\<lambda>b. snd (validate_action c policy hdr b)) (pre @ [act]))
              \<and> evaluate_calls (snd (Invoke c args)) \<le> Suc (length pre)
              \<and> Invoke c args = validate_actions c policy hdr (pre @ [act]))"
proof -
  have inv: "Invoke c args = validate_actions c policy hdr (Actions tx)"
    using assms by (rule Invoke_reaches_loop)
  have ok: "fst (Invoke c args) = Success
            \<longleftrightarrow> (\<forall>act\<in>set (Actions tx). action_passes c policy hdr act)"
    by (simp add: inv validate_actions_Success_iff validate_action_Success_iff)
  have ff: "fst (Invoke c args) = fst (validate_action c policy hdr act)
              \<and> fst (Invoke c args) \<noteq> Success
              \<and> snd (Invoke c args)
                  = concat (map (\<lambda>b. snd (validate_action c policy hdr b)) (pre @ [act]))
              \<and> evaluate_calls (snd (Invoke c args)) \<le> Suc (length pre)
              \<and> Invoke c args = validate_actions c policy hdr (pre @ [act])"
    if tx: "Actions tx = pre @ act # post"
      and pre: "\<forall>b\<in>set pre. action_passes c policy hdr b"
      and fail: "\<not> action_passes c policy hdr act"
    for pre act post
  proof -
    from pre have p: "\<forall>b\<in>set pre. fst (validate_action c policy hdr b) = Success"
      by (simp add: validate_action_Success_iff)
    from fail have f: "fst (validate_action c policy hdr act) \<noteq> Success"
      by (simp add: validate_action_Success_iff)
    have r: "Invoke c args =
           (fst (validate_action c policy hdr act),
            concat (map (\<lambda>b. snd (validate_action c policy hdr b)) (pre @ [act])))"
      using validate_actions_first_failure [OF p f, of post] by (simp add: inv tx)
    have same: "validate_actions c policy hdr (pre @ [act]) =
           (fst (validate_action c policy hdr act),
            concat (map (\<lambda>b. snd (validate_action c policy hdr b)) (pre @ [act])))"
      using validate_actions_first_failure [OF p f, of "[]"] by simp
    have cnt: "evaluate_calls (concat (map (\<lambda>b. snd (validate_action c policy hdr b)) (pre @ [act])))
                 \<le> length (pre @ [act])"
      by (rule evaluate_calls_concat)
    show ?thesis using r same f cnt by simp
  qed
  from ok ff show ?thesis by blast
qed

text \<open>
  The theorem at the transaction [A (passes), B (fails the policy), C (passes)]: the rejection
  is that of B and the policy was evaluated twice; without B the transaction is accepted.
\<close>

theorem validation_fails_fast_witness:
  "fst (Invoke (demo ''lscc'' [action ''okdeploy'', action ''nodeploy'', action ''okupgrade''])
         [Some ''validate'', Some ''Etx'', Some ''sig''])
     = Error (PolicyEvaluationFailed ''signature set does not satisfy policy'')
   \<and> evaluate_calls (snd (Invoke (demo ''lscc'' [action ''okdeploy'', action ''nodeploy'', action ''okupgrade''])
         [Some ''validate'', Some ''Etx'', Some ''sig''])) = 2
   \<and> fst (Invoke (demo ''lscc'' [action ''okdeploy'', action ''okupgrade''])
         [Some ''validate'', Some ''Etx'', Some ''sig'']) = Success"
proof -
  let ?A = "action ''okdeploy''" and ?B = "action ''nodeploy''" and ?C = "action ''okupgrade''"
  let ?args = "[Some ''validate'', Some ''Etx'', Some ''sig'']"
  let ?c = "demo ''lscc'' [?A, ?B, ?C]"
  let ?c2 = "demo ''lscc'' [?A, ?C]"
  have A: "action_passes ?c demo_policy demo_hdr ?A"
    by (simp add: action_passes_def passes_policy_def passes_guard_def demo_eval)
  have B: "\<not> action_passes ?c demo_policy demo_hdr ?B"
    by (simp add: action_passes_def passes_policy_def passes_guard_def demo_eval)
  have vB: "validate_action ?c demo_policy demo_hdr ?B
      = (Error (PolicyEvaluationFailed ''signature set does not satisfy policy''),
         [Evaluate [Some \<lparr>SignedData.Data = ''resporg1'', Identity = ''org1'', Signature = ''no''\<rparr>]])"
    by (simp add: demo_eval)
  have vA: "evaluate_calls (snd (validate_action ?c demo_policy demo_hdr ?A)) = 1"
    by (simp add: demo_eval)
  have A2: "action_passes ?c2 demo_policy demo_hdr ?A"
    by (simp add: action_passes_def passes_policy_def passes_guard_def demo_eval)
  have C2: "action_passes ?c2 demo_policy demo_hdr ?C"
    by (simp add: action_passes_def passes_policy_def passes_guard_def demo_eval)
  let ?env = "\<lparr>Envelope.Payload = ''Etx'', Signature = []\<rparr>"
  let ?payl = "\<lparr>Payload.Header = Some demo_hdr, Data = ''tx''\<rparr>"
  let ?chdr = "\<lparr>Type = 3, ChannelId = ''ch''\<rparr>"
  have h1: "3 \<le> length ?args" and h2: "?args ! 1 = Some ''Etx''" and h3: "?args ! 2 = Some ''sig''"
    by simp_all
  have h4: "GetEnvelopeFromBlock ?c ''Etx'' = Inr ?env"
    and h5: "GetPayload ?c ?env = Inr ?payl"
    and h6: "Payload.Header ?payl = Some demo_hdr"
    and h7: "UnmarshalChannelHeader ?c (ChannelHeader demo_hdr) = Inr ?chdr"
    and h8: "NewPolicy ?c (ChannelId ?chdr) ''sig'' = Inr demo_policy"
    and h9: "Type ?chdr = HeaderType_ENDORSER_TRANSACTION"
    and h10: "GetTransaction ?c (Payload.Data ?payl) = Inr \<lparr>Actions = [?A, ?B, ?C]\<rparr>"
    by (simp_all add: demo_def demo_hdr_def HeaderType_ENDORSER_TRANSACTION_def)
  have g4: "GetEnvelopeFromBlock ?c2 ''Etx'' = Inr ?env"
    and g5: "GetPayload ?c2 ?env = Inr ?payl"
    and g7: "UnmarshalChannelHeader ?c2 (ChannelHeader demo_hdr) = Inr ?chdr"
    and g8: "NewPolicy ?c2 (ChannelId ?chdr) ''sig'' = Inr demo_policy"
    and g10: "GetTransaction ?c2 (Payload.Data ?payl) = Inr \<lparr>Actions = [?A, ?C]\<rparr>"
    by (simp_all add: demo_def demo_hdr_def)
  note t = validation_fails_fast [OF h1 h2 h3 h4 h5 h6 h7 h8 h9 h10]
  note t2 = validation_fails_fast [OF h1 h2 h3 g4 g5 h6 g7 g8 h9 g10]
  have split: "Actions \<lparr>Actions = [?A, ?B, ?C]\<rparr> = [?A] @ ?B # [?C]" by simp
  from t split A B
  have r: "fst (Invoke ?c ?args) = fst (validate_action ?c demo_policy demo_hdr ?B)"
    and e: "snd (Invoke ?c ?args)
        = concat (map (\<lambda>b. snd (validate_action ?c demo_policy demo_hdr b)) ([?A] @ [?B]))"
    by (metis empty_iff empty_set set_ConsD)+
  have e2: "evaluate_calls (snd (Invoke ?c ?args)) = 2"
    using vA by (simp add: e vB evaluate_calls_append)
  from t2 A2 C2 have s: "fst (Invoke ?c2 ?args) = Success" by simp
  from r vB e2 s show ?thesis by simp
qed

lemma guard_calls_action:
  "map Inr (guard_calls (snd (validate_action c policy hdr act))) =
     (if passes_policy c policy act \<and> targets_lscc c hdr
      then [GetChaincodeActionPayload c (TransactionAction.Payload act)] else [])"
  by (auto simp: validate_action_def passes_policy_def targets_lscc_def Let_def
      split: sum.splits option.splits)

lemma guard_calls_action_nonempty:
  "guard_calls (snd (validate_action c policy hdr act)) \<noteq> []
     \<longleftrightarrow> passes_policy c policy act \<and> targets_lscc c hdr"
  using guard_calls_action [of c policy hdr act]
  by (cases "passes_policy c policy act \<and> targets_lscc c hdr") auto

lemma guard_calls_none:
  "\<not> targets_lscc c hdr \<Longrightarrow> guard_calls (snd (validate_actions c policy hdr acts)) = []"
proof (induction acts)
  case Nil
  show ?case by simp
next
  case (Cons a acts)
  have a: "guard_calls (snd (validate_action c policy hdr a)) = []"
    using Cons.prems guard_calls_action_nonempty [of c policy hdr a] by blast
  show ?case
  proof (cases "fst (validate_action c policy hdr a) = Success")
    case True
    then show ?thesis using a Cons
      by (simp add: validate_actions_Cons_pass guard_calls_append del: validate_actions.simps(2))
  next
    case False
    then show ?thesis using a
      by (simp add: validate_actions_Cons_fail del: validate_actions.simps(2))
  qed
qed

lemma guard_calls_prefix:
  assumes t: "targets_lscc c hdr"
  shows "\<exists>k\<le>length acts.
           map Inr (guard_calls (snd (validate_actions c policy hdr acts)))
             = map (\<lambda>a. GetChaincodeActionPayload c (TransactionAction.Payload a)) (take k acts)
           \<and> (fst (validate_actions c policy hdr acts) = Success \<longrightarrow> k = length acts)"
proof (induction acts)
  case Nil
  show ?case by simp
next
  case (Cons a acts)
  let ?g = "\<lambda>a. GetChaincodeActionPayload c (TransactionAction.Payload a)"
  show ?case
  proof (cases "fst (validate_action c policy hdr a) = Success")
    case True
    then have "passes_policy c policy a"
      by (simp add: validate_action_Success_iff action_passes_def)
    with t have ga: "map Inr (guard_calls (snd (validate_action c policy hdr a))) = [?g a]"
      by (simp add: guard_calls_action)
    from Cons obtain k where k: "k \<le> length acts"
      "map Inr (guard_calls (snd (validate_actions c policy hdr acts))) = map ?g (take k acts)"
      "fst (validate_actions c policy hdr acts) = Success \<longrightarrow> k = length acts"
      by blast
    have "Suc k \<le> length (a # acts)" using k(1) by simp
    moreover have "map Inr (guard_calls (snd (validate_actions c policy hdr (a # acts))))
        = map ?g (take (Suc k) (a # acts))"
      using True ga k(2)
      by (simp add: validate_actions_Cons_pass guard_calls_append del: validate_actions.simps(2))
    moreover have "fst (validate_actions c policy hdr (a # acts)) = Success
        \<longrightarrow> Suc k = length (a # acts)"
      using True k(3) by (simp add: validate_actions_Cons_pass del: validate_actions.simps(2))
    ultimately show ?thesis by blast
  next
    case False
    have v: "validate_actions c policy hdr (a # acts) = validate_action c policy hdr a"
      using False by (rule validate_actions_Cons_fail)
    show ?thesis
    proof (cases "passes_policy c policy a")
      case True
      with t have "map Inr (guard_calls (snd (validate_action c policy hdr a))) = [?g a]"
        by (simp add: guard_calls_action)
      then have "map Inr (guard_calls (snd (validate_actions c policy hdr (a # acts))))
          = map ?g (take 1 (a # acts))"
        by (simp add: v del: validate_actions.simps(2))
      moreover have "(1::nat) \<le> length (a # acts)" by simp
      moreover have "fst (validate_actions c policy hdr (a # acts)) \<noteq> Success"
        using False by (simp add: v del: validate_actions.simps(2))
      ultimately show ?thesis by blast
    next
      case False2: False
      then have "guard_calls (snd (validate_action c policy hdr a)) = []"
        using guard_calls_action_nonempty [of c policy hdr a] by blast
      then have "map Inr (guard_calls (snd (validate_actions c policy hdr (a # acts))))
          = map ?g (take 0 (a # acts))"
        by (simp add: v del: validate_actions.simps(2))
      moreover have "fst (validate_actions c policy hdr (a # acts)) \<noteq> Success"
        using False by (simp add: v del: validate_actions.simps(2))
      ultimately show ?thesis by blast
    qed
  qed
qed

text \<open>
  C10, as amended. For an action that passes the policy evaluation, whether the lifecycle
  guard runs is decided by the chaincode name of the header extension of the transaction's
  payload header alone (equality with "lscc"), not by a field of the action. Consequently, in
  one transaction the guard runs for no action (another chaincode) or for an initial segment
  of the actions, the loop leaving at the first failure; in an accepted transaction it runs
  for every action or for none.
\<close>

theorem guard_gated_by_header:
  "(guard_calls (snd (validate_action c policy hdr act)) \<noteq> []
      \<longleftrightarrow> passes_policy c policy act \<and> targets_lscc c hdr)
   \<and> (\<not> targets_lscc c hdr \<longrightarrow> guard_calls (snd (validate_actions c policy hdr acts)) = [])
   \<and> (targets_lscc c hdr \<longrightarrow>
        (\<exists>k\<le>length acts.
           map Inr (guard_calls (snd (validate_actions c policy hdr acts)))
             = map (\<lambda>a. GetChaincodeActionPayload c (TransactionAction.Payload a)) (take k acts)
           \<and> (fst (validate_actions c policy hdr acts) = Success \<longrightarrow> k = length acts)))"
  using guard_calls_action_nonempty [of c policy hdr act] guard_calls_none [of c hdr policy acts]
    guard_calls_prefix [of c hdr acts policy]
  by blast

text \<open>
  C10 as stated fails: in an lscc transaction of two actions whose second action does not
  satisfy the policy, the guard has run for the first action and not for the second.
\<close>

theorem guard_every_or_none_counterexample:
  "guard_calls (snd (Invoke (demo ''lscc'' [action ''okdeploy'', action ''nodeploy''])
                       [Some ''validate'', Some ''Etx'', Some ''sig'']))
     = [\<lparr>ChaincodeProposalPayload = ''deploy'',
         Action = Some \<lparr>ProposalResponsePayload = exact ''resp'',
                        Endorsements = [\<lparr>Endorser = ''org1'', Signature = ''ok''\<rparr>]\<rparr>\<rparr>]
   \<and> length [action ''okdeploy'', action ''nodeploy''] = 2"
  by (simp add: demo_eval)

text \<open>
  The amended theorem at two accepted transactions: none of the two actions is guarded
  for the chaincode "cc", both are for "lscc".
\<close>

theorem guard_gated_by_header_witness:
  "guard_calls (snd (validate_actions (demo ''cc'' []) demo_policy demo_hdr
                       [action ''okdeploy'', action ''okinvoke''])) = []
   \<and> length (guard_calls (snd (validate_actions (demo ''lscc'' []) demo_policy demo_hdr
                       [action ''okdeploy'', action ''okupgrade'']))) = 2"
proof -
  let ?acts = "[action ''okdeploy'', action ''okupgrade'']"
  let ?c = "demo ''lscc'' []"
  have n: "\<not> targets_lscc (demo ''cc'' []) demo_hdr"
    by (simp add: targets_lscc_def demo_def)
  have y: "targets_lscc ?c demo_hdr"
    by (simp add: targets_lscc_def demo_def)
  have s: "fst (validate_actions ?c demo_policy demo_hdr ?acts) = Success"
    by (simp add: demo_eval)
  from guard_gated_by_header [of "demo ''cc'' []" demo_policy demo_hdr "action ''okdeploy''"
      "[action ''okdeploy'', action ''okinvoke'']"] n
  have a: "guard_calls (snd (validate_actions (demo ''cc'' []) demo_policy demo_hdr
                       [action ''okdeploy'', action ''okinvoke''])) = []"
    by blast
  from guard_gated_by_header [of ?c demo_policy demo_hdr "action ''okdeploy''" ?acts] y s
  obtain k where "k = length ?acts"
    "map (Inr :: ChaincodeActionPayload \<Rightarrow> string + ChaincodeActionPayload)
        (guard_calls (snd (validate_actions ?c demo_policy demo_hdr ?acts)))
      = map (\<lambda>a. GetChaincodeActionPayload ?c (TransactionAction.Payload a)) (take k ?acts)"
    by blast
  then have "length (map (Inr :: ChaincodeActionPayload \<Rightarrow> string + ChaincodeActionPayload)
        (guard_calls (snd (validate_actions ?c demo_policy demo_hdr ?acts)))) = 2"
    by simp
  then have b: "length (guard_calls (snd (validate_actions ?c demo_policy demo_hdr ?acts))) = 2"
    by simp
  from a b show ?thesis by simp
qed

section \<open>Arguments and header type\<close>

text \<open>
  C6, as amended. With fewer than three arguments, or with \<^verbatim>\<open>args[1]\<close> or
  \<^verbatim>\<open>args[2]\<close> nil, validation rejects with an ArgumentError that depends only on which
  of the three tests fails: no collaborator is consulted (the result is the same for any two
  sets of collaborators) and the other arguments play no part. An empty slice that is not nil
  is not covered: it passes lines 66 and 70.
\<close>

theorem missing_argument_rejected:
  assumes "length args < 3 \<or> args ! 1 = None \<or> args ! 2 = None"
  shows "Invoke c args =
           (Error (if length args < 3 then IncorrectNumberOfArguments
                   else if args ! 1 = None then NoBlockToValidate
                   else NoPolicySupplied), [])
       \<and> kind_of (if length args < 3 then IncorrectNumberOfArguments
                   else if args ! 1 = None then NoBlockToValidate
                   else NoPolicySupplied) = ArgumentError
       \<and> Invoke c args = Invoke c' args"
  using assms by (auto simp: Invoke_def split: option.splits)

text \<open>The amended theorem with two arguments, with a nil envelope and with a nil policy.\<close>

theorem missing_argument_rejected_witness:
  "Invoke (demo ''lscc'' []) [Some ''validate'', Some ''Etx''] = (Error IncorrectNumberOfArguments, [])
   \<and> Invoke (demo ''lscc'' []) [Some ''validate'', None, Some ''sig''] = (Error NoBlockToValidate, [])
   \<and> Invoke (demo ''lscc'' []) [Some ''validate'', Some ''Etx'', None] = (Error NoPolicySupplied, [])"
proof -
  let ?c = "demo ''lscc'' []"
  have h1: "length [Some ''validate'', Some ''Etx''] < 3
              \<or> [Some ''validate'', Some ''Etx''] ! 1 = None
              \<or> [Some ''validate'', Some ''Etx''] ! 2 = None"
    by simp
  have h2: "length [Some ''validate'', None, Some ''sig''] < 3
              \<or> [Some ''validate'', None, Some ''sig''] ! 1 = None
              \<or> [Some ''validate'', None, Some ''sig''] ! 2 = None"
    by simp
  have h3: "length [Some ''validate'', Some ''Etx'', None] < 3
              \<or> [Some ''validate'', Some ''Etx'', None] ! 1 = None
              \<or> [Some ''validate'', Some ''Etx'', None] ! 2 = None"
    by simp
  from missing_argument_rejected [OF h1, of ?c ?c] missing_argument_rejected [OF h2, of ?c ?c]
    missing_argument_rejected [OF h3, of ?c ?c]
  show ?thesis by simp
qed

text \<open>
  C6 as stated fails for empty bytes: an empty envelope that is not nil reaches
  \<^verbatim>\<open>GetEnvelopeFromBlock\<close>, an empty policy reaches \<^verbatim>\<open>NewPolicy\<close>, and the
  rejection is theirs, not an ArgumentError.
\<close>

theorem empty_argument_not_rejected_counterexample:
  "Invoke (demo ''lscc'' []) [Some ''validate'', Some [], Some ''sig'']
     = (Error (GetEnvelopeFailed ''empty envelope''), [])
   \<and> kind_of (GetEnvelopeFailed ''empty envelope'') = DecodeError
   \<and> Invoke (demo ''lscc'' []) [Some ''validate'', Some ''Etx'', Some []]
     = (Error (NewPolicyFailed ''bad policy''), [])
   \<and> kind_of (NewPolicyFailed ''bad policy'') = DecodeError"
  by (simp add: Invoke_def demo_def)

text \<open>
  C3, as amended. For an envelope that decodes down to its channel header and whose header
  type is not ENDORSER_TRANSACTION, validation never succeeds: it rejects with
  UnsupportedTypeError when the policy bytes compile, and with the error of the policy
  provider when they do not, since the policy is compiled (line 98) before the header type is
  checked (line 105).
\<close>

theorem unsupported_type_rejected:
  assumes "3 \<le> length args" and "args ! 1 = Some block" and "args ! 2 = Some policyBytes"
    and "GetEnvelopeFromBlock c block = Inr env" and "GetPayload c env = Inr payl"
    and "Payload.Header payl = Some hdr"
    and "UnmarshalChannelHeader c (ChannelHeader hdr) = Inr chdr"
    and "Type chdr \<noteq> HeaderType_ENDORSER_TRANSACTION"
  shows "Invoke c args =
           (case NewPolicy c (ChannelId chdr) policyBytes of
              Inl m \<Rightarrow> (Error (NewPolicyFailed m), [])
            | Inr policy \<Rightarrow> (Error (OnlyEndorserTransactionsSupported (Type chdr)), []))
       \<and> kind_of (OnlyEndorserTransactionsSupported (Type chdr)) = UnsupportedTypeError
       \<and> fst (Invoke c args) \<noteq> Success"
  using assms by (simp add: Invoke_def split: sum.splits)

text \<open>The amended theorem at a message envelope and a policy that compiles.\<close>

theorem unsupported_type_rejected_witness:
  "Invoke (demo ''lscc'' [action ''okdeploy'']) [Some ''validate'', Some ''Mtx'', Some ''sig'']
     = (Error (OnlyEndorserTransactionsSupported 0), [])"
proof -
  let ?c = "demo ''lscc'' [action ''okdeploy'']"
  let ?args = "[Some ''validate'', Some ''Mtx'', Some ''sig'']"
  let ?env = "\<lparr>Envelope.Payload = ''Mtx'', Signature = []\<rparr>"
  let ?hdr = "\<lparr>ChannelHeader = ''M'', SignatureHeader = []\<rparr>"
  let ?payl = "\<lparr>Payload.Header = Some ?hdr, Data = ''tx''\<rparr>"
  let ?chdr = "\<lparr>Type = 0, ChannelId = ''ch''\<rparr>"
  have h1: "3 \<le> length ?args" and h2: "?args ! 1 = Some ''Mtx''" and h3: "?args ! 2 = Some ''sig''"
    by simp_all
  have h4: "GetEnvelopeFromBlock ?c ''Mtx'' = Inr ?env"
    and h5: "GetPayload ?c ?env = Inr ?payl"
    and h6: "Payload.Header ?payl = Some ?hdr"
    and h7: "UnmarshalChannelHeader ?c (ChannelHeader ?hdr) = Inr ?chdr"
    and h8: "Type ?chdr \<noteq> HeaderType_ENDORSER_TRANSACTION"
    by (simp_all add: demo_def HeaderType_ENDORSER_TRANSACTION_def)
  have p: "NewPolicy ?c (ChannelId ?chdr) ''sig'' = Inr demo_policy"
    by (simp add: demo_def)
  from unsupported_type_rejected [OF h1 h2 h3 h4 h5 h6 h7 h8] p
  show ?thesis by simp
qed

text \<open>
  C3 as stated fails: for an envelope of header type 0 and policy bytes that do not compile
  the rejection is the error of the policy provider, not UnsupportedTypeError.
\<close>

theorem unsupported_type_counterexample:
  "Invoke (demo ''lscc'' [action ''okdeploy'']) [Some ''validate'', Some ''Mtx'', Some ''garbage'']
     = (Error (NewPolicyFailed ''bad policy''), [])
   \<and> kind_of (NewPolicyFailed ''bad policy'') = DecodeError
   \<and> GetEnvelopeFromBlock (demo ''lscc'' [action ''okdeploy'']) ''Mtx''
     = Inr \<lparr>Envelope.Payload = ''Mtx'', Signature = []\<rparr>
   \<and> UnmarshalChannelHeader (demo ''lscc'' [action ''okdeploy'']) ''M''
     = Inr \<lparr>Type = 0, ChannelId = ''ch''\<rparr>
   \<and> (0::int) \<noteq> HeaderType_ENDORSER_TRANSACTION"
  by (simp add: Invoke_def demo_def HeaderType_ENDORSER_TRANSACTION_def)

end
